theory Spec2Isabelle
  imports Complex_Main "HOL-Library.AList"
begin

section \<open>Python values\<close>

text \<open>
  A Python float is either not-a-number or a finite value. Finite floats are idealised
  as reals: rounding error, overflow and the infinities are outside the model.
\<close>

datatype pyfloat = NaN | Fin real

text \<open>A number passed to a constructor: a Python \<open>int\<close> or a Python \<open>float\<close>.\<close>

datatype pynum = NInt int | NFloat pyfloat

text \<open>
  The exceptions of the program. \<open>ValueError name\<close> is the error of a field validator,
  whose message starts with the field's name; \<open>InvalidEnum tag\<close> is the \<open>ValueError\<close>
  that \<open>CulturalEnum(tag)\<close> raises for an unknown tag; \<open>KeyError c\<close> is the error of
  reading the missing column \<open>c\<close> of a table; \<open>TypeError\<close> is a failed conversion.
\<close>

datatype pyerr = ValueError string | InvalidEnum string | KeyError string | TypeError





section \<open>Agent and Content\<close>

datatype CulturalEnum = WESTERN | EASTERN | AFRICAN | INDIGENOUS | MULTICULTURAL




text \<open>
  The attributes of both classes. \<open>'i\<close> is the type of the identifier, \<open>'n\<close> of a numeric
  field and \<open>'c\<close> of the cultural field: an Agent holds numbers and an enum member, a
  Content holds optional ones, and the constructor arguments hold what the caller passed.
\<close>

record ('i, 'n, 'c) attributes =
  ident :: 'i
  education :: 'n
  economic_status :: 'n
  ethics :: 'n
  politics :: 'n
  cultural :: 'c
  age :: 'n
  sex :: 'n
  novelty :: 'n
  conscientiousness :: 'n
  impulsivity :: 'n
  tech_affinity :: 'n
  social_trust :: 'n

type_synonym content = "(string, pynum option, CulturalEnum option) attributes"

subsection \<open>The validators of Agent\<close>











subsection \<open>The validators of Content\<close>





subsection \<open>Declared bounds\<close>











section \<open>The match scorer\<close>

subsection \<open>Cells and library functions\<close>

text \<open>
  The values that a cell of the agent table or a field of the content record holds:
  \<open>None\<close>, a \<open>bool\<close>, an \<open>int\<close>, a \<open>float\<close> (NaN included), a \<open>str\<close> (ASCII), or an
  object with a \<open>value\<close> attribute holding a string, such as a member of \<open>CulturalEnum\<close>.
  Containers and other objects are not cell values of the model.
\<close>

datatype pyval = PNone | PBool bool | PInt int | PFloat pyfloat | PStr string | PEnum string

text \<open>
  Two functions of the runtime are parameters of the model: \<open>parse_float\<close> is the number
  that pandas reads from a string (\<open>None\<close> when the string is not a number or reads as
  NaN), and \<open>str_float\<close> is Python's \<open>str\<close> of a finite float.
\<close>

record pylib =
  parse_float :: "string \<Rightarrow> real option"
  str_float :: "real \<Rightarrow> string"

text \<open>Float subtraction and absolute value; NaN propagates.\<close>

fun fsub :: "pyfloat \<Rightarrow> pyfloat \<Rightarrow> pyfloat" where
  "fsub (Fin a) (Fin b) = Fin (a - b)"
| "fsub a b = NaN"

fun fabs :: "pyfloat \<Rightarrow> pyfloat" where
  "fabs (Fin a) = Fin \<bar>a\<bar>"
| "fabs NaN = NaN"

text \<open>
  What \<open>pd.to_numeric(v, errors="coerce")\<close> returns for one value: a number, read as a
  float since only differences are used, or the object itself, not converted.
\<close>

datatype numeric = Num pyfloat | Unconverted string

text \<open>
  \<open>pd.to_numeric(v, errors="coerce")\<close> on a scalar: a number is returned as it is
  (\<open>True\<close> counts as 1), \<open>None\<close> and a string that is not a number become NaN. An
  object that is not a scalar is handed back unchanged, without an exception.
\<close>

fun to_numeric :: "pylib \<Rightarrow> pyval \<Rightarrow> pyerr + numeric" where
  "to_numeric L PNone = Inr (Num NaN)"
| "to_numeric L (PBool b) = Inr (Num (Fin (if b then 1 else 0)))"
| "to_numeric L (PInt n) = Inr (Num (Fin (of_int n)))"
| "to_numeric L (PFloat f) = Inr (Num f)"
| "to_numeric L (PStr s) =
     Inr (Num (case parse_float L s of None \<Rightarrow> NaN | Some r \<Rightarrow> Fin r))"
| "to_numeric L (PEnum t) = Inr (Unconverted t)"

text \<open>
  \<open>pd.isna(x)\<close>, \<open>float(x)\<close> and \<open>float(abs(x - c))\<close> on such results. An object that
  was not converted is not missing, and converting it or subtracting with it raises
  \<open>TypeError\<close>.
\<close>

fun isna :: "numeric \<Rightarrow> bool" where
  "isna (Num NaN) = True"
| "isna (Num (Fin r)) = False"
| "isna (Unconverted t) = False"

fun float_of :: "numeric \<Rightarrow> pyerr + pyfloat" where
  "float_of (Num f) = Inr f"
| "float_of (Unconverted t) = Inl TypeError"

fun abs_diff :: "numeric \<Rightarrow> numeric \<Rightarrow> pyerr + pyfloat" where
  "abs_diff (Num a) (Num b) = Inr (fabs (fsub a b))"
| "abs_diff (Unconverted t) c = Inl TypeError"
| "abs_diff x (Unconverted t) = Inl TypeError"

text \<open>
  \<open>pd.to_numeric(series, errors="coerce")\<close> on a column: every element is converted,
  and an element that cannot be becomes NaN; the call itself does not fail.
\<close>

fun to_numeric_element :: "pylib \<Rightarrow> pyval \<Rightarrow> pyfloat" where
  "to_numeric_element L PNone = NaN"
| "to_numeric_element L (PBool b) = Fin (if b then 1 else 0)"
| "to_numeric_element L (PInt n) = Fin (of_int n)"
| "to_numeric_element L (PFloat f) = f"
| "to_numeric_element L (PStr s) = (case parse_float L s of None \<Rightarrow> NaN | Some r \<Rightarrow> Fin r)"
| "to_numeric_element L (PEnum t) = NaN"

definition to_numeric_series :: "pylib \<Rightarrow> pyval list \<Rightarrow> pyfloat list" where
  "to_numeric_series L xs = map (to_numeric_element L) xs"

text \<open>\<open>str.strip()\<close> and \<open>str.lower()\<close> on ASCII strings, and \<open>str\<close> of an \<open>int\<close>.\<close>

definition is_space :: "char \<Rightarrow> bool" where
  "is_space c = (let n = of_char c :: nat in (9 \<le> n \<and> n \<le> 13) \<or> (28 \<le> n \<and> n \<le> 32))"

definition strip :: "string \<Rightarrow> string" where
  "strip s = rev (dropWhile is_space (rev (dropWhile is_space s)))"

definition lower :: "string \<Rightarrow> string" where
  "lower s =
     map (\<lambda>c. let n = of_char c :: nat in if 65 \<le> n \<and> n \<le> 90 then char_of (n + 32) else c) s"

fun digits :: "nat \<Rightarrow> string" where
  "digits n =
     (if n < 10 then [char_of (48 + n)] else digits (n div 10) @ [char_of (48 + n mod 10)])"

declare digits.simps [simp del]

definition str_int :: "int \<Rightarrow> string" where
  "str_int i = (if i < 0 then CHR ''-'' # digits (nat (- i)) else digits (nat i))"

subsection \<open>Tables\<close>

text \<open>
  A DataFrame: its number of rows and its columns in order, each a name with one cell per
  row. In a well-formed table the names are distinct and every column has \<open>nrows\<close> cells.
  \<open>column\<close> is \<open>df[c]\<close> (\<open>None\<close> when \<open>c\<close> is not in \<open>df.columns\<close>) and \<open>setitem\<close> is
  \<open>df[c] = xs\<close>, which replaces the column \<open>c\<close> in place or appends it as the last one.
\<close>

record dataframe =
  nrows :: nat
  cols :: "(string \<times> pyval list) list"

definition columns :: "dataframe \<Rightarrow> string list" where
  "columns df = map fst (cols df)"

definition column :: "dataframe \<Rightarrow> string \<Rightarrow> pyval list option" where
  "column df c = map_of (cols df) c"

definition setitem :: "dataframe \<Rightarrow> string \<Rightarrow> pyval list \<Rightarrow> dataframe" where
  "setitem df c xs = df\<lparr>cols := AList.update c xs (cols df)\<rparr>"

definition wf :: "dataframe \<Rightarrow> bool" where
  "wf df = (distinct (map fst (cols df)) \<and> (\<forall>(c, xs) \<in> set (cols df). length xs = nrows df))"

text \<open>A column of floats, as the cells of a table.\<close>

definition float_series :: "pyfloat list \<Rightarrow> pyval list" where
  "float_series fs = map PFloat fs"

subsection \<open>The content record\<close>

text \<open>
  The content argument: \<open>None\<close>, a mapping, an object whose \<open>to_dict()\<close> returns the given
  dictionary, or any other object.
\<close>

type_synonym pydict = "string \<Rightarrow> pyval option"

datatype content_arg = CNone | CMapping pydict | CObject pydict | COther

fun as_dict :: "content_arg \<Rightarrow> pydict" where
  "as_dict CNone = Map.empty"
| "as_dict (CMapping m) = m"
| "as_dict (CObject m) = m"
| "as_dict COther = Map.empty"

text \<open>\<open>content_dict.get(attr, None)\<close>.\<close>

definition cval :: "pydict \<Rightarrow> string \<Rightarrow> pyval" where
  "cval d attr = (case d attr of None \<Rightarrow> PNone | Some v \<Rightarrow> v)"

subsection \<open>Distances\<close>

text \<open>The conversion inside \<open>try\<close>: any exception gives NaN.\<close>

definition try_to_numeric :: "pylib \<Rightarrow> pyval \<Rightarrow> numeric" where
  "try_to_numeric L v = (case to_numeric L v of Inl e \<Rightarrow> Num NaN | Inr r \<Rightarrow> r)"

text \<open>
  \<open>content_tier\<close>: \<open>float(pd.to_numeric(...))\<close> inside \<open>try\<close>, so that the
  \<open>TypeError\<close> of \<open>float\<close> on an object gives NaN as well.
\<close>

definition content_tier :: "pylib \<Rightarrow> pydict \<Rightarrow> pyfloat" where
  "content_tier L content_dict =
     (case to_numeric L (cval content_dict ''tiered_income'') of
        Inl e \<Rightarrow> NaN
      | Inr r \<Rightarrow> (case float_of r of Inl e \<Rightarrow> NaN | Inr f \<Rightarrow> f))"

text \<open>
  The closure \<open>_diff_numeric\<close> of the loop over \<open>ethics\<close>, \<open>politics\<close>, \<open>age\<close>, \<open>sex\<close>.
  The subtraction is outside the \<open>try\<close>: its \<open>TypeError\<close> leaves the closure.
\<close>

definition diff_numeric :: "pylib \<Rightarrow> numeric \<Rightarrow> pyval \<Rightarrow> pyerr + pyfloat" where
  "diff_numeric L c_num x =
     (let x_num = try_to_numeric L x
      in if isna x_num \<or> isna c_num then Inr NaN else abs_diff x_num c_num)"

text \<open>\<open>series.apply(f)\<close> for a function that may raise: the first exception ends it.\<close>

fun apply_series :: "('a \<Rightarrow> pyerr + 'b) \<Rightarrow> 'a list \<Rightarrow> pyerr + 'b list" where
  "apply_series f [] = Inr []"
| "apply_series f (x # xs) =
     (case f x of
        Inl e \<Rightarrow> Inl e
      | Inr y \<Rightarrow> (case apply_series f xs of Inl e \<Rightarrow> Inl e | Inr ys \<Rightarrow> Inr (y # ys)))"

text \<open>
  \<open>_normalize_cultural\<close>: \<open>None\<close> for a missing value, otherwise the stripped lower-case
  string of the \<open>value\<close> attribute, or of the value itself when it has none.
\<close>

fun normalize_cultural :: "pylib \<Rightarrow> pyval \<Rightarrow> string option" where
  "normalize_cultural L PNone = None"
| "normalize_cultural L (PFloat NaN) = None"
| "normalize_cultural L (PEnum t) = Some (lower (strip t))"
| "normalize_cultural L (PStr s) = Some (lower (strip s))"
| "normalize_cultural L (PInt n) = Some (lower (strip (str_int n)))"
| "normalize_cultural L (PBool b) = Some (lower (strip (if b then ''True'' else ''False'')))"
| "normalize_cultural L (PFloat (Fin r)) = Some (lower (strip (str_float L r)))"

definition diff_cultural :: "pylib \<Rightarrow> string option \<Rightarrow> pyval \<Rightarrow> pyfloat" where
  "diff_cultural L norm_c x =
     (let nx = normalize_cultural L x
      in if nx = None \<or> norm_c = None then NaN else if nx = norm_c then Fin 0 else Fin 1)"

subsection \<open>The columns that the scorer assigns\<close>

definition attrs :: "string list" where
  "attrs = [''tiered_income'', ''ethics'', ''politics'', ''cultural'', ''age'', ''sex'']"

definition diff_cols :: "string list" where
  "diff_cols = map (\<lambda>a. ''diff_'' @ a) attrs"

text \<open>
  The value assigned to \<open>diff_tiered_income\<close>: one subtraction on the whole column when
  the table has the column and the content's tier is a number, NaN in every row otherwise.
\<close>

definition diff_tiered_income :: "pylib \<Rightarrow> pydict \<Rightarrow> dataframe \<Rightarrow> pyfloat list" where
  "diff_tiered_income L content_dict df =
     (let tier = content_tier L content_dict
      in case column df ''tiered_income'' of
           Some col \<Rightarrow>
             if tier \<noteq> NaN
             then map (\<lambda>x. fabs (fsub x tier)) (to_numeric_series L col)
             else replicate (nrows df) NaN
         | None \<Rightarrow> replicate (nrows df) NaN)"

text \<open>
  The value assigned to \<open>diff_<attr>\<close> in the loop: \<open>df[attr].apply(_diff_numeric)\<close> when
  the table has the column, NaN in every row otherwise.
\<close>

definition diff_column ::
    "pylib \<Rightarrow> pydict \<Rightarrow> dataframe \<Rightarrow> string \<Rightarrow> pyerr + pyfloat list" where
  "diff_column L content_dict df attr =
     (let c_num = try_to_numeric L (cval content_dict attr)
      in case column df attr of
           Some col \<Rightarrow> apply_series (diff_numeric L c_num) col
         | None \<Rightarrow> Inr (replicate (nrows df) NaN))"

text \<open>The loop over the attributes: one assignment for each, until one raises.\<close>

fun assign_diffs :: "pylib \<Rightarrow> pydict \<Rightarrow> dataframe \<Rightarrow> string list \<Rightarrow> pyerr + dataframe" where
  "assign_diffs L content_dict df [] = Inr df"
| "assign_diffs L content_dict df (attr # rest) =
     (case diff_column L content_dict df attr of
        Inl e \<Rightarrow> Inl e
      | Inr xs \<Rightarrow>
          assign_diffs L content_dict (setitem df (''diff_'' @ attr) (float_series xs)) rest)"

text \<open>
  The value assigned to \<open>diff_cultural\<close>: \<open>df["cultural"].apply(_diff_cultural)\<close>. The
  column is read without a test, so a table without it raises \<open>KeyError\<close>.
\<close>

definition diff_cultural_column :: "pylib \<Rightarrow> pydict \<Rightarrow> dataframe \<Rightarrow> pyerr + pyfloat list" where
  "diff_cultural_column L content_dict df =
     (let norm_c = normalize_cultural L (cval content_dict ''cultural'')
      in case column df ''cultural'' of
           None \<Rightarrow> Inl (KeyError ''cultural'')
         | Some col \<Rightarrow> Inr (map (diff_cultural L norm_c) col))"

text \<open>
  \<open>df[diff_cols].mean(axis=1, skipna=True)\<close>: the row-wise mean of the numbers that are
  not NaN, NaN for a row without any. A cell that is not a number makes the mean fail.
\<close>

fun cell_number :: "pyval \<Rightarrow> pyfloat option" where
  "cell_number (PFloat f) = Some f"
| "cell_number (PInt n) = Some (Fin (of_int n))"
| "cell_number (PBool b) = Some (Fin (if b then 1 else 0))"
| "cell_number PNone = Some NaN"
| "cell_number (PStr s) = None"
| "cell_number (PEnum t) = None"

definition available :: "pyfloat list \<Rightarrow> real list" where
  "available fs = concat (map (\<lambda>f. case f of NaN \<Rightarrow> [] | Fin r \<Rightarrow> [r]) fs)"

definition mean_skipna :: "pyfloat list \<Rightarrow> pyfloat" where
  "mean_skipna fs =
     (if available fs = [] then NaN
      else Fin (sum_list (available fs) / real (length (available fs))))"

definition mean_axis1 :: "nat \<Rightarrow> pyval list list \<Rightarrow> pyerr + pyfloat list" where
  "mean_axis1 n cs =
     (case those (map (\<lambda>i. map_option mean_skipna (those (map (\<lambda>c. cell_number (c ! i)) cs)))
                     [0..<n]) of
        None \<Rightarrow> Inl TypeError
      | Some ms \<Rightarrow> Inr ms)"

definition base_score :: "dataframe \<Rightarrow> pyerr + pyfloat list" where
  "base_score df =
     (case those (map (column df) diff_cols) of
        None \<Rightarrow> Inl (KeyError ''diff_cols'')
      | Some cs \<Rightarrow>
          (case mean_axis1 (nrows df) cs of
             Inl e \<Rightarrow> Inl e
           | Inr ms \<Rightarrow> Inr (map (fsub (Fin 1)) ms)))"

subsection \<open>The scorer\<close>

text \<open>
  \<open>compute_base_match_df\<close> on the value of the agent table. \<open>agents_df.copy()\<close> is the
  same table as a value; every assignment goes to the copy.
\<close>

definition compute_base_match_df :: "pylib \<Rightarrow> dataframe \<Rightarrow> content_arg \<Rightarrow> pyerr + dataframe" where
  "compute_base_match_df L agents_df content =
     (let content_dict = as_dict content;
          df = agents_df;
          df = setitem df ''diff_tiered_income''
                 (float_series (diff_tiered_income L content_dict df))
      in case assign_diffs L content_dict df [''ethics'', ''politics'', ''age'', ''sex''] of
           Inl e \<Rightarrow> Inl e
         | Inr df \<Rightarrow>
             (case diff_cultural_column L content_dict df of
                Inl e \<Rightarrow> Inl e
              | Inr ds \<Rightarrow>
                  (let df = setitem df ''diff_cultural'' (float_series ds)
                   in case base_score df of
                        Inl e \<Rightarrow> Inl e
                      | Inr bs \<Rightarrow> Inr (setitem df ''base_score'' (float_series bs)))))"

subsection \<open>The scorer on object references\<close>

text \<open>
  The same function with the identity of tables made explicit. A heap is the list of the
  tables that exist, and a reference is an index into it. \<open>agents_df.copy()\<close> allocates a
  new table, and every assignment \<open>df[c] = xs\<close> updates the table that \<open>df\<close> refers to. The
  result is the heap after the call with the reference returned, or the error raised. The
  content record is only read, through \<open>get\<close> on a dictionary made for the call.
\<close>

type_synonym heap = "dataframe list"

definition df_copy :: "heap \<Rightarrow> nat \<Rightarrow> heap \<times> nat" where
  "df_copy h p = (h @ [h ! p], length h)"

definition heap_setitem :: "heap \<Rightarrow> nat \<Rightarrow> string \<Rightarrow> pyval list \<Rightarrow> heap" where
  "heap_setitem h p c xs = h[p := setitem (h ! p) c xs]"

fun heap_assign_diffs ::
    "pylib \<Rightarrow> pydict \<Rightarrow> heap \<Rightarrow> nat \<Rightarrow> string list \<Rightarrow> heap \<times> (pyerr + unit)" where
  "heap_assign_diffs L content_dict h df [] = (h, Inr ())"
| "heap_assign_diffs L content_dict h df (attr # rest) =
     (case diff_column L content_dict (h ! df) attr of
        Inl e \<Rightarrow> (h, Inl e)
      | Inr xs \<Rightarrow>
          heap_assign_diffs L content_dict
            (heap_setitem h df (''diff_'' @ attr) (float_series xs)) df rest)"

definition compute_base_match_df_heap ::
    "pylib \<Rightarrow> heap \<Rightarrow> nat \<Rightarrow> content_arg \<Rightarrow> heap \<times> (pyerr + nat)" where
  "compute_base_match_df_heap L h agents_df content =
     (let content_dict = as_dict content
      in case df_copy h agents_df of (h, df) \<Rightarrow>
        (let h = heap_setitem h df ''diff_tiered_income''
                   (float_series (diff_tiered_income L content_dict (h ! df)))
         in case heap_assign_diffs L content_dict h df
                   [''ethics'', ''politics'', ''age'', ''sex''] of
              (h, Inl e) \<Rightarrow> (h, Inl e)
            | (h, Inr u) \<Rightarrow>
                (case diff_cultural_column L content_dict (h ! df) of
                   Inl e \<Rightarrow> (h, Inl e)
                 | Inr ds \<Rightarrow>
                     (let h = heap_setitem h df ''diff_cultural'' (float_series ds)
                      in case base_score (h ! df) of
                           Inl e \<Rightarrow> (h, Inl e)
                         | Inr bs \<Rightarrow>
                             (heap_setitem h df ''base_score'' (float_series bs), Inr df)))))"

subsection \<open>The distance rules of the specification\<close>

text \<open>
  The rules as the specification words them. A numeric distance is the absolute
  difference of two numbers and is undefined when either is not a number; a categorical
  distance is 0 for equal labels, 1 for different ones, and undefined when either label
  is missing.
\<close>

definition numeric_distance :: "pyfloat \<Rightarrow> pyfloat \<Rightarrow> pyfloat" where
  "numeric_distance x c = (case (x, c) of (Fin a, Fin b) \<Rightarrow> Fin \<bar>a - b\<bar> | _ \<Rightarrow> NaN)"


subsection \<open>The result in closed form\<close>

text \<open>
  The numeric distances of a column by the rule of the specification, the table after the
  five numeric assignments, the six distance columns in the order of \<open>attrs\<close>, the scores
  computed from them, and the table that the scorer returns when the cultural distances
  are \<open>ds\<close>. The lemmas below show that the scorer computes these whenever it returns.
  \<open>scalar_inputs\<close> holds when no cell of the four columns of the loop and none of the
  content's four values is an object; then the scorer does not raise \<open>TypeError\<close>.
\<close>

definition numeric_diffs :: "pylib \<Rightarrow> pydict \<Rightarrow> dataframe \<Rightarrow> string \<Rightarrow> pyfloat list" where
  "numeric_diffs L d df attr =
     (case column df attr of
        Some col \<Rightarrow>
          map (\<lambda>x. numeric_distance (to_numeric_element L x)
                      (to_numeric_element L (cval d attr))) col
      | None \<Rightarrow> replicate (nrows df) NaN)"

fun is_scalar :: "pyval \<Rightarrow> bool" where
  "is_scalar (PEnum t) = False"
| "is_scalar v = True"

definition scalar_inputs :: "dataframe \<Rightarrow> pydict \<Rightarrow> bool" where
  "scalar_inputs df d =
     list_all (\<lambda>a. is_scalar (cval d a)
                 \<and> (case column df a of None \<Rightarrow> True | Some col \<Rightarrow> list_all is_scalar col))
       [''ethics'', ''politics'', ''age'', ''sex'']"

definition with_numeric_diffs :: "pylib \<Rightarrow> pydict \<Rightarrow> dataframe \<Rightarrow> dataframe" where
  "with_numeric_diffs L d df =
     setitem (setitem (setitem (setitem (setitem df
       ''diff_tiered_income'' (float_series (diff_tiered_income L d df)))
       ''diff_ethics'' (float_series (numeric_diffs L d df ''ethics'')))
       ''diff_politics'' (float_series (numeric_diffs L d df ''politics'')))
       ''diff_age'' (float_series (numeric_diffs L d df ''age'')))
       ''diff_sex'' (float_series (numeric_diffs L d df ''sex''))"

definition distances :: "pylib \<Rightarrow> pydict \<Rightarrow> dataframe \<Rightarrow> pyfloat list \<Rightarrow> pyfloat list list" where
  "distances L d df ds =
     [diff_tiered_income L d df, numeric_diffs L d df ''ethics'', numeric_diffs L d df ''politics'',
      ds, numeric_diffs L d df ''age'', numeric_diffs L d df ''sex'']"

definition scores :: "pylib \<Rightarrow> pydict \<Rightarrow> dataframe \<Rightarrow> pyfloat list \<Rightarrow> pyfloat list" where
  "scores L d df ds =
     map (\<lambda>i. fsub (Fin 1) (mean_skipna (map (\<lambda>F. F ! i) (distances L d df ds))))
       [0..<nrows df]"

definition scored :: "pylib \<Rightarrow> pydict \<Rightarrow> dataframe \<Rightarrow> pyfloat list \<Rightarrow> dataframe" where
  "scored L d df ds =
     setitem (setitem (with_numeric_diffs L d df) ''diff_cultural'' (float_series ds))
       ''base_score'' (float_series (scores L d df ds))"

subsection \<open>The aggregation rule of the specification\<close>




definition undefined_or :: "(real \<Rightarrow> bool) \<Rightarrow> pyval \<Rightarrow> bool" where
  "undefined_or P x = (case x of PFloat NaN \<Rightarrow> True | PFloat (Fin r) \<Rightarrow> P r | _ \<Rightarrow> False)"

subsection \<open>Sample inputs\<close>

definition lib0 :: pylib where
  "lib0 = \<lparr>parse_float = (\<lambda>s. if s = ''0.6'' then Some (3 / 5) else None),
           str_float = (\<lambda>r. ''?'')\<rparr>"

definition agents1 :: dataframe where
  "agents1 = \<lparr>nrows = 2, cols =
     [(''name'', [PStr ''ann'', PStr ''bob'']),
      (''tiered_income'', [PInt 3, PStr ''x'']),
      (''ethics'', [PFloat (Fin (2 / 5)), PNone]),
      (''politics'', [PInt 1, PInt (- 2)]),
      (''cultural'', [PStr '' Western'', PEnum ''eastern'']),
      (''age'', [PInt 30, PInt 50]),
      (''sex'', [PInt 0, PBool True])]\<rparr>"

definition content1 :: pydict where
  "content1 = [''tiered_income'' \<mapsto> PInt 3, ''ethics'' \<mapsto> PStr ''0.6'', ''politics'' \<mapsto> PInt 1,
     ''cultural'' \<mapsto> PStr ''western'', ''age'' \<mapsto> PInt 40, ''sex'' \<mapsto> PInt 1]"

text \<open>
  \<open>drop_column\<close> is \<open>df.drop(columns=[c])\<close>. \<open>agents2\<close> is a table that already has a
  column named \<open>base_score\<close>, and \<open>scored_agents2\<close> is what the scorer returns for it.
  \<open>agents3\<close> is a table with an enum member in \<open>tiered_income\<close> and in \<open>ethics\<close>.
\<close>

definition drop_column :: "dataframe \<Rightarrow> string \<Rightarrow> dataframe" where
  "drop_column df c = df\<lparr>cols := filter (\<lambda>p. fst p \<noteq> c) (cols df)\<rparr>"

definition agents2 :: dataframe where
  "agents2 = \<lparr>nrows = 1, cols = [(''cultural'', [PStr ''western'']), (''base_score'', [PInt 7])]\<rparr>"

definition agents3 :: dataframe where
  "agents3 = \<lparr>nrows = 1, cols =
     [(''tiered_income'', [PEnum ''western'']), (''ethics'', [PEnum ''western'']),
      (''cultural'', [PStr ''western''])]\<rparr>"

definition scored_agents2 :: dataframe where
  "scored_agents2 = \<lparr>nrows = 1, cols =
     [(''cultural'', [PStr ''western'']), (''base_score'', [PFloat NaN]),
      (''diff_tiered_income'', [PFloat NaN]), (''diff_ethics'', [PFloat NaN]),
      (''diff_politics'', [PFloat NaN]), (''diff_age'', [PFloat NaN]),
      (''diff_sex'', [PFloat NaN]), (''diff_cultural'', [PFloat NaN])]\<rparr>"

section \<open>Properties of the constructors\<close>

subsection \<open>Income rounding\<close>





subsection \<open>Validation\<close>










































section \<open>Properties of the scorer\<close>

subsection \<open>Tables\<close>

lemma column_setitem:
  "column (setitem df c xs) c' = (if c' = c then Some xs else column df c')"
  by (simp add: column_def setitem_def update_conv')

lemma nrows_setitem: "nrows (setitem df c xs) = nrows df"
  by (simp add: setitem_def)

lemma columns_setitem:
  "columns (setitem df c xs) = (if c \<in> set (columns df) then columns df else columns df @ [c])"
  by (simp add: columns_def setitem_def update_keys)

lemma set_update_cases: "p \<in> set (AList.update k v al) \<Longrightarrow> p = (k, v) \<or> p \<in> set al"
  by (induction al) (auto split: if_splits)

lemma wf_setitem: "wf df \<Longrightarrow> length xs = nrows df \<Longrightarrow> wf (setitem df c xs)"
  by (auto simp: wf_def setitem_def distinct_update dest!: set_update_cases)

lemma wf_column_length: "wf df \<Longrightarrow> column df c = Some xs \<Longrightarrow> length xs = nrows df"
  by (auto simp: wf_def column_def dest!: map_of_SomeD)

lemma float_series_replicate: "float_series (replicate n f) = replicate n (PFloat f)"
  by (simp add: float_series_def)

lemma float_series_nth: "i < length fs \<Longrightarrow> float_series fs ! i = PFloat (fs ! i)"
  by (simp add: float_series_def)

lemma length_float_series: "length (float_series fs) = length fs"
  by (simp add: float_series_def)

subsection \<open>Coercion\<close>

lemma to_numeric_element_eq:
  "to_numeric_element L x = (case try_to_numeric L x of Num f \<Rightarrow> f | Unconverted t \<Rightarrow> NaN)"
  by (cases x) (simp_all add: try_to_numeric_def)

lemma content_tier_eq: "content_tier L d = to_numeric_element L (cval d ''tiered_income'')"
  by (cases "cval d ''tiered_income''") (simp_all add: content_tier_def)

lemma try_to_numeric_scalar: "is_scalar x \<Longrightarrow> try_to_numeric L x = Num (to_numeric_element L x)"
  by (cases x) (simp_all add: try_to_numeric_def)

lemma numeric_distance_NaN: "numeric_distance x NaN = NaN" "numeric_distance NaN c = NaN"
  by (simp_all add: numeric_distance_def split: pyfloat.splits)

lemma vectorized_cell:
  "c \<noteq> NaN \<Longrightarrow> fabs (fsub x c) = numeric_distance x c"
  by (cases x; cases c) (simp_all add: numeric_distance_def)

text \<open>Whenever the closure returns, it returns the distance of the specification.\<close>

lemma diff_numeric_Inr:
  assumes "diff_numeric L (try_to_numeric L c) x = Inr f"
  shows "f = numeric_distance (to_numeric_element L x) (to_numeric_element L c)"
proof (cases "try_to_numeric L x")
  case (Num a)
  note x = this
  show ?thesis
  proof (cases "try_to_numeric L c")
    case (Num b)
    with x assms show ?thesis
      by (cases a; cases b)
         (auto simp: diff_numeric_def to_numeric_element_eq numeric_distance_def)
  next
    case (Unconverted t)
    with x assms show ?thesis
      by (cases a) (auto simp: diff_numeric_def to_numeric_element_eq numeric_distance_def)
  qed
next
  case (Unconverted t)
  with assms show ?thesis
    by (cases "try_to_numeric L c" rule: isna.cases)
       (auto simp: diff_numeric_def to_numeric_element_eq numeric_distance_def)
qed

lemma diff_numeric_scalar:
  assumes "is_scalar x" and "is_scalar c"
  shows "diff_numeric L (try_to_numeric L c) x
           = Inr (numeric_distance (to_numeric_element L x) (to_numeric_element L c))"
  using assms
  by (cases "to_numeric_element L x"; cases "to_numeric_element L c")
     (simp_all add: diff_numeric_def try_to_numeric_scalar numeric_distance_def)

lemma diff_numeric_missing_content:
  assumes "try_to_numeric L c = Num NaN"
  shows "diff_numeric L (try_to_numeric L c) x = Inr NaN"
  using assms by (simp add: diff_numeric_def)

subsection \<open>The assigned columns\<close>

lemma apply_series_values:
  assumes "\<And>x y. f x = Inr y \<Longrightarrow> y = g x" and "apply_series f xs = Inr ys"
  shows "ys = map g xs"
  using assms(2)
proof (induction xs arbitrary: ys)
  case Nil
  then show ?case by simp
next
  case (Cons x xs)
  then show ?case
    by (auto split: sum.splits dest: assms(1))
qed

lemma apply_series_returns:
  assumes "\<And>x. x \<in> set xs \<Longrightarrow> f x = Inr (g x)"
  shows "apply_series f xs = Inr (map g xs)"
  using assms by (induction xs) simp_all

lemma diff_column_Inr:
  assumes "diff_column L d df a = Inr ys"
  shows "ys = numeric_diffs L d df a"
proof (cases "column df a")
  case None
  with assms show ?thesis by (simp add: diff_column_def numeric_diffs_def)
next
  case (Some col)
  with assms have "apply_series (diff_numeric L (try_to_numeric L (cval d a))) col = Inr ys"
    by (simp add: diff_column_def)
  then have "ys = map (\<lambda>x. numeric_distance (to_numeric_element L x)
                             (to_numeric_element L (cval d a))) col"
    by (rule apply_series_values [rotated]) (rule diff_numeric_Inr)
  with Some show ?thesis by (simp add: numeric_diffs_def)
qed

lemma diff_column_scalar:
  assumes "is_scalar (cval d a)"
    and "case column df a of None \<Rightarrow> True | Some col \<Rightarrow> list_all is_scalar col"
  shows "diff_column L d df a = Inr (numeric_diffs L d df a)"
proof (cases "column df a")
  case None
  then show ?thesis by (simp add: diff_column_def numeric_diffs_def)
next
  case (Some col)
  with assms(2) have "\<And>x. x \<in> set col \<Longrightarrow> is_scalar x"
    by (simp add: list_all_iff)
  then have "apply_series (diff_numeric L (try_to_numeric L (cval d a))) col
               = Inr (map (\<lambda>x. numeric_distance (to_numeric_element L x)
                             (to_numeric_element L (cval d a))) col)"
    by (intro apply_series_returns diff_numeric_scalar assms(1))
  with Some show ?thesis by (simp add: diff_column_def numeric_diffs_def)
qed

lemma diff_column_missing_content:
  assumes "try_to_numeric L (cval d a) = Num NaN"
  shows "diff_column L d df a = Inr (numeric_diffs L d df a)"
proof (cases "column df a")
  case None
  then show ?thesis by (simp add: diff_column_def numeric_diffs_def)
next
  case (Some col)
  have "to_numeric_element L (cval d a) = NaN"
    using assms by (simp add: to_numeric_element_eq)
  moreover have "apply_series (diff_numeric L (try_to_numeric L (cval d a))) col
               = Inr (map (\<lambda>x. NaN) col)"
    by (intro apply_series_returns diff_numeric_missing_content assms)
  ultimately show ?thesis
    using Some by (simp add: diff_column_def numeric_diffs_def numeric_distance_NaN)
qed

lemma length_diff_tiered_income: "wf df \<Longrightarrow> length (diff_tiered_income L d df) = nrows df"
  by (auto simp: diff_tiered_income_def Let_def to_numeric_series_def wf_column_length
      split: option.splits)

lemma length_numeric_diffs: "wf df \<Longrightarrow> length (numeric_diffs L d df a) = nrows df"
  by (auto simp: numeric_diffs_def wf_column_length split: option.splits)

lemma diff_column_cong:
  "column df' a = column df a \<Longrightarrow> nrows df' = nrows df \<Longrightarrow>
   diff_column L d df' a = diff_column L d df a"
  by (simp add: diff_column_def split: option.splits)

lemma diff_column_setitem:
  "a \<noteq> c \<Longrightarrow> diff_column L d (setitem df c xs) a = diff_column L d df a"
  by (rule diff_column_cong) (simp_all add: column_setitem nrows_setitem)

lemma diff_cultural_column_setitem:
  "c \<noteq> ''cultural'' \<Longrightarrow>
   diff_cultural_column L d (setitem df c xs) = diff_cultural_column L d df"
  by (simp add: diff_cultural_column_def column_setitem)

lemma those_map_Some:
  "(\<And>x. x \<in> set xs \<Longrightarrow> f x = Some (g x)) \<Longrightarrow> those (map f xs) = Some (map g xs)"
  by (induction xs) simp_all

lemma those_map_Some_id: "those (map Some xs) = Some xs"
  by (induction xs) simp_all

lemma mean_axis1_floats:
  assumes "\<And>F. F \<in> set Fs \<Longrightarrow> length F = n"
  shows "mean_axis1 n (map float_series Fs)
           = Inr (map (\<lambda>i. mean_skipna (map (\<lambda>F. F ! i) Fs)) [0..<n])"
proof -
  have inner: "those (map (\<lambda>c. cell_number (c ! i)) (map float_series Fs))
                 = Some (map (\<lambda>F. F ! i) Fs)" if "i < n" for i
  proof -
    have "those (map (\<lambda>F. cell_number (float_series F ! i)) Fs) = Some (map (\<lambda>F. F ! i) Fs)"
      by (rule those_map_Some) (use assms that in \<open>simp add: float_series_def\<close>)
    then show ?thesis by (simp add: comp_def)
  qed
  have "those (map (\<lambda>i. map_option mean_skipna
                (those (map (\<lambda>c. cell_number (c ! i)) (map float_series Fs)))) [0..<n])
          = Some (map (\<lambda>i. mean_skipna (map (\<lambda>F. F ! i) Fs)) [0..<n])"
  proof (rule those_map_Some)
    fix i assume "i \<in> set [0..<n]"
    then have "i < n" by simp
    then show "map_option mean_skipna
                 (those (map (\<lambda>c. cell_number (c ! i)) (map float_series Fs)))
               = Some (mean_skipna (map (\<lambda>F. F ! i) Fs))"
      by (simp only: inner option.map)
  qed
  then show ?thesis by (simp add: mean_axis1_def)
qed

subsection \<open>The scorer computes the closed form\<close>

lemma compute_unfold:
  "compute_base_match_df L df content =
     (case diff_column L (as_dict content) df ''ethics'' of Inl e \<Rightarrow> Inl e | Inr es \<Rightarrow>
      case diff_column L (as_dict content) df ''politics'' of Inl e \<Rightarrow> Inl e | Inr ps \<Rightarrow>
      case diff_column L (as_dict content) df ''age'' of Inl e \<Rightarrow> Inl e | Inr as \<Rightarrow>
      case diff_column L (as_dict content) df ''sex'' of Inl e \<Rightarrow> Inl e | Inr ss \<Rightarrow>
      case diff_cultural_column L (as_dict content) df of Inl e \<Rightarrow> Inl e | Inr ds \<Rightarrow>
      case base_score
             (setitem (setitem (setitem (setitem (setitem (setitem df
                ''diff_tiered_income''
                  (float_series (diff_tiered_income L (as_dict content) df)))
                ''diff_ethics'' (float_series es))
                ''diff_politics'' (float_series ps))
                ''diff_age'' (float_series as))
                ''diff_sex'' (float_series ss))
                ''diff_cultural'' (float_series ds)) of
        Inl e \<Rightarrow> Inl e
      | Inr bs \<Rightarrow>
          Inr (setitem (setitem (setitem (setitem (setitem (setitem (setitem df
                ''diff_tiered_income''
                  (float_series (diff_tiered_income L (as_dict content) df)))
                ''diff_ethics'' (float_series es))
                ''diff_politics'' (float_series ps))
                ''diff_age'' (float_series as))
                ''diff_sex'' (float_series ss))
                ''diff_cultural'' (float_series ds))
                ''base_score'' (float_series bs)))"
  by (simp add: compute_base_match_df_def Let_def diff_column_setitem
      diff_cultural_column_setitem split: sum.splits)

lemma nrows_with_numeric_diffs: "nrows (with_numeric_diffs L d df) = nrows df"
  by (simp add: with_numeric_diffs_def nrows_setitem)

lemma selected_diff_cols:
  "map (column (setitem (with_numeric_diffs L d df) ''diff_cultural'' (float_series ds))) diff_cols
     = map Some (map float_series (distances L d df ds))"
  by (simp add: diff_cols_def attrs_def distances_def with_numeric_diffs_def column_setitem)

lemma base_score_numeric_diffs:
  assumes "wf df" and "length ds = nrows df"
  shows "base_score (setitem (with_numeric_diffs L d df) ''diff_cultural'' (float_series ds))
           = Inr (scores L d df ds)"
proof -
  have len: "\<And>F. F \<in> set (distances L d df ds) \<Longrightarrow> length F = nrows df"
    using assms by (auto simp: distances_def length_diff_tiered_income length_numeric_diffs)
  show ?thesis
    unfolding base_score_def selected_diff_cols those_map_Some_id
    by (simp add: mean_axis1_floats [OF len] nrows_setitem nrows_with_numeric_diffs
        scores_def)
qed

lemma diff_cultural_column_Inr:
  "diff_cultural_column L d df = Inr ds \<longleftrightarrow>
     (\<exists>cs. column df ''cultural'' = Some cs
        \<and> ds = map (diff_cultural L (normalize_cultural L (cval d ''cultural''))) cs)"
  by (auto simp: diff_cultural_column_def split: option.splits)

lemma compute_Inr:
  assumes "wf df" and "compute_base_match_df L df content = Inr out"
  obtains cs where "column df ''cultural'' = Some cs"
    and "out = scored L (as_dict content) df
                 (map (diff_cultural L (normalize_cultural L
                         (cval (as_dict content) ''cultural''))) cs)"
    and "list_all (\<lambda>a. diff_column L (as_dict content) df a
                          = Inr (numeric_diffs L (as_dict content) df a))
           [''ethics'', ''politics'', ''age'', ''sex'']"
proof -
  let ?d = "as_dict content"
  let ?T = "\<lambda>es ps as ss ds.
      setitem (setitem (setitem (setitem (setitem (setitem df
        ''diff_tiered_income'' (float_series (diff_tiered_income L ?d df)))
        ''diff_ethics'' (float_series es))
        ''diff_politics'' (float_series ps))
        ''diff_age'' (float_series as))
        ''diff_sex'' (float_series ss))
        ''diff_cultural'' (float_series ds)"
  from assms(2) obtain es ps as ss ds bs where
    e: "diff_column L ?d df ''ethics'' = Inr es" and p: "diff_column L ?d df ''politics'' = Inr ps"
    and a: "diff_column L ?d df ''age'' = Inr as" and s: "diff_column L ?d df ''sex'' = Inr ss"
    and c: "diff_cultural_column L ?d df = Inr ds"
    and b: "base_score (?T es ps as ss ds) = Inr bs"
    and o: "out = setitem (?T es ps as ss ds) ''base_score'' (float_series bs)"
    unfolding compute_unfold by (auto split: sum.splits)
  note v = diff_column_Inr [OF e] diff_column_Inr [OF p] diff_column_Inr [OF a]
    diff_column_Inr [OF s]
  from c obtain cs where cs: "column df ''cultural'' = Some cs"
    and ds: "ds = map (diff_cultural L (normalize_cultural L (cval ?d ''cultural''))) cs"
    unfolding diff_cultural_column_Inr by blast
  have len: "length ds = nrows df"
    using assms(1) cs ds by (simp add: wf_column_length)
  have T: "?T es ps as ss ds
             = setitem (with_numeric_diffs L ?d df) ''diff_cultural'' (float_series ds)"
    by (simp add: v with_numeric_diffs_def)
  have "bs = scores L ?d df ds"
    using b unfolding T base_score_numeric_diffs [OF assms(1) len] by simp
  then have "out = scored L ?d df ds"
    using o unfolding T by (simp add: scored_def)
  moreover have "list_all (\<lambda>a. diff_column L ?d df a = Inr (numeric_diffs L ?d df a))
           [''ethics'', ''politics'', ''age'', ''sex'']"
    using e p a s v by simp
  ultimately show ?thesis
    using that cs ds by blast
qed

lemma compute_scored:
  assumes "wf df" and "column df ''cultural'' = Some cs"
    and "list_all (\<lambda>a. diff_column L (as_dict content) df a
                          = Inr (numeric_diffs L (as_dict content) df a))
           [''ethics'', ''politics'', ''age'', ''sex'']"
  shows "compute_base_match_df L df content
           = Inr (scored L (as_dict content) df
                    (map (diff_cultural L (normalize_cultural L
                            (cval (as_dict content) ''cultural''))) cs))"
proof -
  have "length cs = nrows df"
    using assms(1,2) by (rule wf_column_length)
  then show ?thesis
    using assms
    by (simp add: compute_unfold diff_cultural_column_def with_numeric_diffs_def [symmetric]
        base_score_numeric_diffs scored_def)
qed

lemma loop_returns_scalar:
  assumes "scalar_inputs df d"
  shows "list_all (\<lambda>a. diff_column L d df a = Inr (numeric_diffs L d df a))
           [''ethics'', ''politics'', ''age'', ''sex'']"
  using assms by (simp add: scalar_inputs_def diff_column_scalar)

lemma compute_returns:
  assumes "wf df" and "column df ''cultural'' = Some cs" and "scalar_inputs df (as_dict content)"
  shows "compute_base_match_df L df content
           = Inr (scored L (as_dict content) df
                    (map (diff_cultural L (normalize_cultural L
                            (cval (as_dict content) ''cultural''))) cs))"
  using assms(1,2) loop_returns_scalar [OF assms(3)] by (rule compute_scored)

lemma compute_missing_cultural:
  assumes "column df ''cultural'' = None"
  shows "\<exists>e. compute_base_match_df L df content = Inl e"
  using assms
  by (auto simp: compute_unfold diff_cultural_column_def split: sum.splits)

lemma column_scored:
  "column (scored L d df ds) c =
     (if c = ''base_score'' then Some (float_series (scores L d df ds))
      else if c = ''diff_cultural'' then Some (float_series ds)
      else if c = ''diff_sex'' then Some (float_series (numeric_diffs L d df ''sex''))
      else if c = ''diff_age'' then Some (float_series (numeric_diffs L d df ''age''))
      else if c = ''diff_politics'' then Some (float_series (numeric_diffs L d df ''politics''))
      else if c = ''diff_ethics'' then Some (float_series (numeric_diffs L d df ''ethics''))
      else if c = ''diff_tiered_income'' then Some (float_series (diff_tiered_income L d df))
      else column df c)"
  by (simp add: scored_def with_numeric_diffs_def column_setitem)

lemma nrows_scored: "nrows (scored L d df ds) = nrows df"
  by (simp add: scored_def nrows_setitem nrows_with_numeric_diffs)

subsection \<open>Distances, row by row\<close>

lemma diff_tiered_income_rowwise:
  assumes "wf df"
  shows "diff_tiered_income L d df = numeric_diffs L d df ''tiered_income''"
proof (cases "column df ''tiered_income''")
  case None
  then show ?thesis by (simp add: diff_tiered_income_def numeric_diffs_def)
next
  case (Some col)
  then have len: "length col = nrows df"
    using assms wf_column_length by blast
  show ?thesis
  proof (cases "content_tier L d = NaN")
    case True
    then have "to_numeric_element L (cval d ''tiered_income'') = NaN"
      by (simp add: content_tier_eq)
    with True Some len show ?thesis
      by (simp add: diff_tiered_income_def numeric_diffs_def numeric_distance_NaN
          map_replicate_const)
  next
    case False
    with Some show ?thesis
      by (simp add: diff_tiered_income_def numeric_diffs_def to_numeric_series_def
          vectorized_cell content_tier_eq)
  qed
qed

lemma numeric_diffs_nth:
  assumes "column df a = Some col" and "i < length col"
  shows "numeric_diffs L d df a ! i
           = numeric_distance (to_numeric_element L (col ! i)) (to_numeric_element L (cval d a))"
  using assms by (simp add: numeric_diffs_def)

lemma numeric_diffs_undefined:
  assumes "wf df" and "column df a = None \<or> to_numeric_element L (cval d a) = NaN"
  shows "numeric_diffs L d df a = replicate (nrows df) NaN"
proof (cases "column df a")
  case None
  then show ?thesis by (simp add: numeric_diffs_def)
next
  case (Some col)
  then have "length col = nrows df"
    using assms(1) wf_column_length by blast
  moreover have "to_numeric_element L (cval d a) = NaN"
    using assms(2) Some by simp
  ultimately show ?thesis
    using Some by (simp add: numeric_diffs_def numeric_distance_NaN map_replicate_const)
qed

text \<open>
  C4. Whenever the scorer returns, the column \<open>diff_tiered_income\<close>, computed by one
  operation on the whole column, holds in every row the distance that the numeric rule
  gives for \<open>tiered_income\<close>, and equals row by row what the per-row closure of the other
  numeric attributes returns for that column wherever the closure returns; when the table
  has no \<open>tiered_income\<close> column, or the content's tier is missing or not a number, it is
  undefined in every row. The scorer returns on a well-formed table with a \<open>cultural\<close>
  column whose numeric cells and content values are scalars.
\<close>

theorem tiered_income_rowwise:
  assumes "wf df"
  shows "(\<forall>out. compute_base_match_df L df content = Inr out \<longrightarrow>
           (\<exists>ys. column out ''diff_tiered_income'' = Some ys
              \<and> ys = float_series (numeric_diffs L (as_dict content) df ''tiered_income'')
              \<and> length ys = nrows df
              \<and> (\<forall>zs. diff_column L (as_dict content) df ''tiered_income'' = Inr zs \<longrightarrow>
                    ys = float_series zs)
              \<and> (\<forall>col i. column df ''tiered_income'' = Some col \<and> i < nrows df \<longrightarrow>
                    ys ! i = PFloat (numeric_distance (to_numeric_element L (col ! i))
                                       (content_tier L (as_dict content)))
                    \<and> (\<forall>f. diff_numeric L
                              (try_to_numeric L (cval (as_dict content) ''tiered_income''))
                              (col ! i) = Inr f \<longrightarrow> ys ! i = PFloat f))
              \<and> (column df ''tiered_income'' = None \<or> content_tier L (as_dict content) = NaN
                    \<longrightarrow> ys = replicate (nrows df) (PFloat NaN))))
       \<and> (\<forall>cs. column df ''cultural'' = Some cs \<and> scalar_inputs df (as_dict content) \<longrightarrow>
             (\<exists>out. compute_base_match_df L df content = Inr out))"
proof (intro conjI allI impI)
  fix out assume "compute_base_match_df L df content = Inr out"
  let ?d = "as_dict content"
  let ?ys = "float_series (numeric_diffs L ?d df ''tiered_income'')"
  from assms \<open>compute_base_match_df L df content = Inr out\<close>
  obtain cs where out: "out = scored L ?d df
      (map (diff_cultural L (normalize_cultural L (cval ?d ''cultural''))) cs)"
    by (rule compute_Inr)
  have c: "column out ''diff_tiered_income'' = Some ?ys"
    by (simp add: out column_scored diff_tiered_income_rowwise [OF assms])
  have len: "length ?ys = nrows df"
    by (simp add: length_float_series length_numeric_diffs [OF assms])
  have loop: "?ys = float_series zs" if "diff_column L ?d df ''tiered_income'' = Inr zs" for zs
    using diff_column_Inr [OF that] by simp
  have rows: "?ys ! i = PFloat (numeric_distance (to_numeric_element L (col ! i))
                          (content_tier L ?d))
      \<and> (\<forall>f. diff_numeric L (try_to_numeric L (cval ?d ''tiered_income'')) (col ! i) = Inr f
            \<longrightarrow> ?ys ! i = PFloat f)"
    if "column df ''tiered_income'' = Some col \<and> i < nrows df" for col i
  proof -
    have "length col = nrows df"
      using assms that by (auto intro: wf_column_length)
    with that have "?ys ! i = PFloat (numeric_distance (to_numeric_element L (col ! i))
                          (to_numeric_element L (cval ?d ''tiered_income'')))"
      using len by (simp add: float_series_nth length_float_series numeric_diffs_nth)
    then show ?thesis
      by (auto simp: content_tier_eq dest: diff_numeric_Inr)
  qed
  have undef: "?ys = replicate (nrows df) (PFloat NaN)"
    if "column df ''tiered_income'' = None \<or> content_tier L ?d = NaN"
    using numeric_diffs_undefined [OF assms, of "''tiered_income''" L ?d] that
    by (auto simp: float_series_replicate content_tier_eq)
  show "\<exists>ys. column out ''diff_tiered_income'' = Some ys
              \<and> ys = float_series (numeric_diffs L ?d df ''tiered_income'')
              \<and> length ys = nrows df
              \<and> (\<forall>zs. diff_column L ?d df ''tiered_income'' = Inr zs \<longrightarrow> ys = float_series zs)
              \<and> (\<forall>col i. column df ''tiered_income'' = Some col \<and> i < nrows df \<longrightarrow>
                    ys ! i = PFloat (numeric_distance (to_numeric_element L (col ! i))
                                       (content_tier L ?d))
                    \<and> (\<forall>f. diff_numeric L (try_to_numeric L (cval ?d ''tiered_income''))
                              (col ! i) = Inr f \<longrightarrow> ys ! i = PFloat f))
              \<and> (column df ''tiered_income'' = None \<or> content_tier L ?d = NaN
                    \<longrightarrow> ys = replicate (nrows df) (PFloat NaN))"
    using c len loop rows undef by blast
next
  fix cs assume "column df ''cultural'' = Some cs \<and> scalar_inputs df (as_dict content)"
  then show "\<exists>out. compute_base_match_df L df content = Inr out"
    using compute_returns [OF assms] by blast
qed


text \<open>
  For scalar cells and content values, the numeric rule of the specification holds of
  every numeric attribute, and the scorer returns.
\<close>

lemma numeric_rule_on_scalars:
  assumes "wf df" and "column df ''cultural'' = Some cs" and "scalar_inputs df (as_dict content)"
    and "a \<in> set [''tiered_income'', ''ethics'', ''politics'', ''age'', ''sex'']"
    and "column df a = Some xs" and "i < nrows df"
  shows "\<exists>out ys. compute_base_match_df L df content = Inr out
           \<and> column out (''diff_'' @ a) = Some ys \<and> length ys = nrows df
           \<and> ys ! i = PFloat (numeric_distance (to_numeric_element L (xs ! i))
                               (to_numeric_element L (cval (as_dict content) a)))"
proof -
  let ?d = "as_dict content"
  let ?out = "scored L ?d df
      (map (diff_cultural L (normalize_cultural L (cval ?d ''cultural''))) cs)"
  let ?ys = "float_series (numeric_diffs L ?d df a)"
  have out: "compute_base_match_df L df content = Inr ?out"
    using assms(1-3) by (rule compute_returns)
  have c: "column ?out (''diff_'' @ a) = Some ?ys"
    using assms(4) by (auto simp: column_scored diff_tiered_income_rowwise [OF assms(1)])
  have len: "length ?ys = nrows df"
    by (simp add: length_float_series length_numeric_diffs [OF assms(1)])
  have "length xs = nrows df"
    using assms(1,5) by (rule wf_column_length)
  then have "?ys ! i = PFloat (numeric_distance (to_numeric_element L (xs ! i))
                               (to_numeric_element L (cval ?d a)))"
    using assms(5,6) len
    by (simp add: float_series_nth length_float_series numeric_diffs_nth)
  then show ?thesis
    using out c len by blast
qed


subsection \<open>Aggregation\<close>




lemma length_distances:
  assumes "wf df" and "length ds = nrows df" and "F \<in> set (distances L d df ds)"
  shows "length F = nrows df"
  using assms by (auto simp: distances_def length_diff_tiered_income length_numeric_diffs)

lemma scores_nth:
  "i < nrows df \<Longrightarrow>
   scores L d df ds ! i = fsub (Fin 1) (mean_skipna (map (\<lambda>F. F ! i) (distances L d df ds)))"
  by (simp add: scores_def)

lemma length_scores: "length (scores L d df ds) = nrows df"
  by (simp add: scores_def)




subsection \<open>The sample table\<close>

lemma wf_agents1: "wf agents1"
  by (simp add: wf_def agents1_def)

lemma agents1_columns:
  "column agents1 ''cultural'' = Some [PStr '' Western'', PEnum ''eastern'']"
  "column agents1 ''tiered_income'' = Some [PInt 3, PStr ''x'']"
  "column agents1 ''ethics'' = Some [PFloat (Fin (2 / 5)), PNone]"
  "nrows agents1 = 2"
  by (simp_all add: column_def agents1_def)

lemma agents1_scalar:
  "scalar_inputs agents1 (as_dict (CMapping content1))"
  "scalar_inputs agents1 (as_dict (CMapping (content1(''politics'' := None))))"
  "scalar_inputs agents1 (as_dict CNone)"
  by code_simp+



lemma sample_full:
  "compute_base_match_df lib0 agents1 (CMapping content1) =
     Inr \<lparr>nrows = 2,
        cols =
          [(''name'', [PStr ''ann'', PStr ''bob'']),
           (''tiered_income'', [PInt 3, PStr ''x'']),
           (''ethics'', [PFloat (Fin (2 / 5)), PNone]),
           (''politics'', [PInt 1, PInt (- 2)]),
           (''cultural'', [PStr '' Western'', PEnum ''eastern'']),
           (''age'', [PInt 30, PInt 50]), (''sex'', [PInt 0, PBool True]),
           (''diff_tiered_income'', [PFloat (Fin 0), PFloat NaN]),
           (''diff_ethics'', [PFloat (Fin (1 / 5)), PFloat NaN]),
           (''diff_politics'', [PFloat (Fin 0), PFloat (Fin 3)]),
           (''diff_age'', [PFloat (Fin 10), PFloat (Fin 10)]),
           (''diff_sex'', [PFloat (Fin 1), PFloat (Fin 0)]),
           (''diff_cultural'', [PFloat (Fin 0), PFloat (Fin 1)]),
           (''base_score'',
            [PFloat (Fin (- (13 / 15))), PFloat (Fin (- (5 / 2)))])]\<rparr>"
  by code_simp


theorem tiered_income_rowwise_witness:
  "wf agents1 \<and> column agents1 ''cultural'' = Some [PStr '' Western'', PEnum ''eastern'']
   \<and> scalar_inputs agents1 (as_dict (CMapping content1))
   \<and> scalar_inputs agents1 (as_dict CNone)
   \<and> column agents1 ''tiered_income'' = Some [PInt 3, PStr ''x''] \<and> 0 < nrows agents1
   \<and> diff_numeric lib0 (try_to_numeric lib0 (cval (as_dict (CMapping content1))
        ''tiered_income'')) ([PInt 3, PStr ''x''] ! 0) = Inr (Fin 0)
   \<and> diff_column lib0 (as_dict (CMapping content1)) agents1 ''tiered_income''
        = Inr [Fin 0, NaN]
   \<and> (\<exists>out ys. compute_base_match_df lib0 agents1 (CMapping content1) = Inr out
         \<and> column out ''diff_tiered_income'' = Some ys \<and> ys ! 0 = PFloat (Fin 0)
         \<and> ys = float_series [Fin 0, NaN])
   \<and> content_tier lib0 (as_dict CNone) = NaN
   \<and> (\<exists>out ys. compute_base_match_df lib0 agents1 CNone = Inr out
         \<and> column out ''diff_tiered_income'' = Some ys \<and> ys = [PFloat NaN, PFloat NaN])"
proof -
  have nan: "content_tier lib0 (as_dict CNone) = NaN"
    by (simp add: content_tier_def cval_def)
  have zero: "diff_numeric lib0 (try_to_numeric lib0 (cval (as_dict (CMapping content1))
                ''tiered_income'')) ([PInt 3, PStr ''x''] ! 0) = Inr (Fin 0)"
    by code_simp
  have loop: "diff_column lib0 (as_dict (CMapping content1)) agents1 ''tiered_income''
        = Inr [Fin 0, NaN]"
    by code_simp
  note full = tiered_income_rowwise [OF wf_agents1, of lib0 "CMapping content1"]
  note none = tiered_income_rowwise [OF wf_agents1, of lib0 CNone]
  from full agents1_columns(1) agents1_scalar(1)
  obtain out where o: "compute_base_match_df lib0 agents1 (CMapping content1) = Inr out"
    by blast
  with full obtain ys where y: "column out ''diff_tiered_income'' = Some ys"
    and l: "\<forall>zs. diff_column lib0 (as_dict (CMapping content1)) agents1 ''tiered_income''
                   = Inr zs \<longrightarrow> ys = float_series zs"
    and r: "\<forall>col i. column agents1 ''tiered_income'' = Some col \<and> i < nrows agents1 \<longrightarrow>
              (\<forall>f. diff_numeric lib0 (try_to_numeric lib0
                        (cval (as_dict (CMapping content1)) ''tiered_income''))
                        (col ! i) = Inr f \<longrightarrow> ys ! i = PFloat f)"
    by blast
  have y0: "ys ! 0 = PFloat (Fin 0)"
    using r agents1_columns(2,4) zero by auto
  have ys: "ys = float_series [Fin 0, NaN]"
    using l loop by blast
  from none agents1_columns(1) agents1_scalar(3)
  obtain out' where o': "compute_base_match_df lib0 agents1 CNone = Inr out'"
    by blast
  with none obtain ys' where y': "column out' ''diff_tiered_income'' = Some ys'"
    and u: "column agents1 ''tiered_income'' = None \<or> content_tier lib0 (as_dict CNone) = NaN
              \<longrightarrow> ys' = replicate (nrows agents1) (PFloat NaN)"
    by blast
  have "ys' = [PFloat NaN, PFloat NaN]"
    using u nan by (simp add: agents1_columns(4) numeral_2_eq_2)
  then show ?thesis
    using wf_agents1 agents1_columns agents1_scalar zero loop nan o y y0 ys o' y' by auto
qed



subsection \<open>An object in a numeric column\<close>

text \<open>
  C2. In \<open>agents3\<close> the cell of \<open>ethics\<close> is an enum member, which is not a number. The
  content's \<open>ethics\<close> is the number 0.6. The closure \<open>_diff_numeric\<close> raises \<open>TypeError\<close>
  on that cell, and so does the scorer: the distance is not undefined, an error is raised.
  The same cell in \<open>tiered_income\<close> gives an undefined distance, as the table without
  its \<open>ethics\<close> column shows.
\<close>

theorem object_cell_raises:
  "column agents3 ''ethics'' = Some [PEnum ''western'']
   \<and> try_to_numeric lib0 (cval (as_dict (CMapping content1)) ''ethics'') = Num (Fin (3 / 5))
   \<and> diff_numeric lib0 (Num (Fin (3 / 5))) (PEnum ''western'') = Inl TypeError
   \<and> compute_base_match_df lib0 agents3 (CMapping content1) = Inl TypeError
   \<and> column agents3 ''tiered_income'' = Some [PEnum ''western'']
   \<and> (case compute_base_match_df lib0 (drop_column agents3 ''ethics'') (CMapping content1) of
        Inl e \<Rightarrow> None | Inr out \<Rightarrow> column out ''diff_tiered_income'')
     = Some [PFloat NaN]"
  by code_simp

subsection \<open>Empty content\<close>

lemma map_diff_cultural_None: "map (diff_cultural L None) xs = replicate (length xs) NaN"
  by (induction xs) (simp_all add: diff_cultural_def)

lemma mean_skipna_all_NaN: "mean_skipna (replicate k NaN) = NaN"
proof -
  have "available (replicate k NaN) = []"
    by (induction k) (simp_all add: available_def)
  then show ?thesis by (simp add: mean_skipna_def)
qed

lemma scores_undefined:
  assumes "\<And>F. F \<in> set (distances L d df ds) \<Longrightarrow> F = replicate (nrows df) NaN"
  shows "scores L d df ds = replicate (nrows df) NaN"
proof -
  have "fsub (Fin 1) (mean_skipna (map (\<lambda>F. F ! i) (distances L d df ds))) = NaN"
    if "i < nrows df" for i
  proof -
    have "map (\<lambda>F. F ! i) (distances L d df ds) = map (\<lambda>F. NaN) (distances L d df ds)"
    proof (rule map_cong [OF refl])
      fix F assume "F \<in> set (distances L d df ds)"
      then have "F = replicate (nrows df) NaN" by (rule assms)
      then show "F ! i = NaN" using that by simp
    qed
    then show ?thesis by (simp add: map_replicate_const mean_skipna_all_NaN)
  qed
  then have "map (\<lambda>i. fsub (Fin 1) (mean_skipna (map (\<lambda>F. F ! i) (distances L d df ds))))
               [0..<nrows df] = map (\<lambda>i. NaN) [0..<nrows df]"
    by (intro map_cong) simp_all
  then show ?thesis by (simp add: scores_def map_replicate_const)
qed

lemma loop_returns_empty:
  "list_all (\<lambda>a. diff_column L Map.empty df a = Inr (numeric_diffs L Map.empty df a))
     [''ethics'', ''politics'', ''age'', ''sex'']"
  by (simp add: diff_column_missing_content cval_def try_to_numeric_def)

text \<open>
  C6. The scorer takes the dictionary of a mapping or of an object with \<open>to_dict()\<close>, and
  the empty dictionary for \<open>None\<close>; a mapping and an object with the same dictionary give
  the same result. For an empty content dictionary, the six distance columns and
  \<open>base_score\<close> are undefined in every row.
  The table is well formed and has a \<open>cultural\<close> column.
\<close>

theorem empty_content_undefined:
  "as_dict CNone = Map.empty \<and> as_dict (CMapping m) = m \<and> as_dict (CObject m) = m
   \<and> compute_base_match_df L df (CObject m) = compute_base_match_df L df (CMapping m)
   \<and> compute_base_match_df L df CNone = compute_base_match_df L df (CMapping Map.empty)
   \<and> (wf df \<and> column df ''cultural'' = Some cs \<and> as_dict content = Map.empty \<longrightarrow>
        (\<exists>out. compute_base_match_df L df content = Inr out
           \<and> list_all (\<lambda>c. column out c = Some (replicate (nrows df) (PFloat NaN)))
                (diff_cols @ [''base_score''])))"
proof -
  have "\<exists>out. compute_base_match_df L df content = Inr out
           \<and> list_all (\<lambda>c. column out c = Some (replicate (nrows df) (PFloat NaN)))
                (diff_cols @ [''base_score''])"
    if w: "wf df" and cs: "column df ''cultural'' = Some cs" and e: "as_dict content = Map.empty"
  proof -
    let ?ds = "map (diff_cultural L (normalize_cultural L (cval Map.empty ''cultural''))) cs"
    have "list_all (\<lambda>a. diff_column L (as_dict content) df a
                          = Inr (numeric_diffs L (as_dict content) df a))
           [''ethics'', ''politics'', ''age'', ''sex'']"
      unfolding e by (rule loop_returns_empty)
    with w cs have "compute_base_match_df L df content
           = Inr (scored L (as_dict content) df
                    (map (diff_cultural L (normalize_cultural L
                            (cval (as_dict content) ''cultural''))) cs))"
      by (rule compute_scored)
    then have out: "compute_base_match_df L df content = Inr (scored L Map.empty df ?ds)"
      by (simp add: e)
    have num: "numeric_diffs L Map.empty df a = replicate (nrows df) NaN" for a
      using numeric_diffs_undefined [OF w, of a L Map.empty]
      by (simp add: cval_def)
    have tier: "diff_tiered_income L Map.empty df = replicate (nrows df) NaN"
      by (simp add: diff_tiered_income_rowwise [OF w] num)
    have "length cs = nrows df"
      using w cs by (rule wf_column_length)
    then have cult: "?ds = replicate (nrows df) NaN"
      by (simp add: cval_def map_diff_cultural_None)
    have "scores L Map.empty df ?ds = replicate (nrows df) NaN"
      by (rule scores_undefined) (auto simp: distances_def num tier cult)
    then have "list_all (\<lambda>c. column (scored L Map.empty df ?ds) c
                                = Some (replicate (nrows df) (PFloat NaN)))
                (diff_cols @ [''base_score''])"
      by (simp add: diff_cols_def attrs_def column_scored num tier cult
          float_series_replicate)
    with out show ?thesis by blast
  qed
  then show ?thesis
    by (simp add: compute_base_match_df_def)
qed

theorem empty_content_undefined_witness:
  "wf agents1 \<and> column agents1 ''cultural'' = Some [PStr '' Western'', PEnum ''eastern'']
   \<and> as_dict CNone = Map.empty
   \<and> (\<exists>out. compute_base_match_df lib0 agents1 CNone = Inr out
         \<and> column out ''diff_age'' = Some [PFloat NaN, PFloat NaN]
         \<and> column out ''base_score'' = Some [PFloat NaN, PFloat NaN])"
proof -
  have e: "as_dict CNone = Map.empty"
    by simp
  have "\<exists>out. compute_base_match_df lib0 agents1 CNone = Inr out
          \<and> list_all (\<lambda>c. column out c = Some (replicate (nrows agents1) (PFloat NaN)))
               (diff_cols @ [''base_score''])"
    using empty_content_undefined [where L = lib0 and df = agents1
        and cs = "[PStr '' Western'', PEnum ''eastern'']" and content = CNone]
      wf_agents1 agents1_columns(1) e
    by blast
  then obtain out where "compute_base_match_df lib0 agents1 CNone = Inr out"
    and "column out ''diff_age'' = Some [PFloat NaN, PFloat NaN]"
    and "column out ''base_score'' = Some [PFloat NaN, PFloat NaN]"
    by (auto simp: diff_cols_def attrs_def agents1_columns(4) numeral_2_eq_2)
  then show ?thesis
    using wf_agents1 agents1_columns(1) e by blast
qed

subsection \<open>Bounds\<close>

lemma numeric_distance_nonneg: "undefined_or (\<lambda>r. 0 \<le> r) (PFloat (numeric_distance x c))"
  by (cases x; cases c) (simp_all add: numeric_distance_def undefined_or_def)

lemma undefined_or_NaN: "undefined_or P (PFloat NaN)"
  by (simp add: undefined_or_def)

lemma numeric_diffs_nonneg:
  "list_all (undefined_or (\<lambda>r. 0 \<le> r)) (float_series (numeric_diffs L d df a))"
  by (auto simp: numeric_diffs_def float_series_def list_all_iff numeric_distance_nonneg
      undefined_or_NaN split: option.splits)

lemma diff_cultural_zero_one:
  "list_all (undefined_or (\<lambda>r. r = 0 \<or> r = 1)) (float_series (map (diff_cultural L c) xs))"
  by (auto simp: float_series_def list_all_iff diff_cultural_def undefined_or_def Let_def)

lemma undefined_or_mono:
  "undefined_or P x \<Longrightarrow> (\<And>r. P r \<Longrightarrow> Q r) \<Longrightarrow> undefined_or Q x"
  by (auto simp: undefined_or_def split: pyval.splits pyfloat.splits)

lemma available_nonneg:
  assumes "\<forall>f \<in> set fs. undefined_or (\<lambda>r. 0 \<le> r) (PFloat f)"
  shows "\<forall>r \<in> set (available fs). 0 \<le> r"
  using assms
  by (induction fs) (auto simp: available_def undefined_or_def split: pyfloat.splits)

lemma score_at_most_one:
  assumes "\<forall>f \<in> set fs. undefined_or (\<lambda>r. 0 \<le> r) (PFloat f)"
  shows "undefined_or (\<lambda>r. r \<le> 1) (PFloat (fsub (Fin 1) (mean_skipna fs)))"
proof (cases "available fs = []")
  case True
  then show ?thesis by (simp add: mean_skipna_def undefined_or_def)
next
  case False
  have "0 \<le> sum_list (available fs)"
    using available_nonneg [OF assms] by (simp add: sum_list_nonneg)
  then have "0 \<le> sum_list (available fs) / real (length (available fs))"
    by simp
  with False show ?thesis by (simp add: mean_skipna_def undefined_or_def)
qed

text \<open>
  C10. Whenever the scorer returns, every defined cell of a distance column is
  nonnegative, every defined cell of \<open>diff_cultural\<close> is 0 or 1, and every defined
  \<open>base_score\<close> is at most 1. The scorer returns on a well-formed table with a \<open>cultural\<close>
  column whose numeric cells and content values are scalars.
\<close>

theorem distances_nonnegative:
  assumes "wf df"
  shows "(\<forall>out. compute_base_match_df L df content = Inr out \<longrightarrow>
           list_all (\<lambda>c. \<exists>ys. column out c = Some ys
                   \<and> list_all (undefined_or (\<lambda>r. 0 \<le> r)) ys) diff_cols
           \<and> (\<exists>ys. column out ''diff_cultural'' = Some ys
                   \<and> list_all (undefined_or (\<lambda>r. r = 0 \<or> r = 1)) ys)
           \<and> (\<exists>bs. column out ''base_score'' = Some bs
                   \<and> list_all (undefined_or (\<lambda>r. r \<le> 1)) bs))
       \<and> (\<forall>cs. column df ''cultural'' = Some cs \<and> scalar_inputs df (as_dict content) \<longrightarrow>
             (\<exists>out. compute_base_match_df L df content = Inr out))"
proof (rule conjI; intro allI impI)
  fix cs assume "column df ''cultural'' = Some cs \<and> scalar_inputs df (as_dict content)"
  then show "\<exists>out. compute_base_match_df L df content = Inr out"
    using compute_returns [OF assms] by blast
next
  fix out assume o: "compute_base_match_df L df content = Inr out"
  let ?d = "as_dict content"
  from assms o obtain cs where cs: "column df ''cultural'' = Some cs"
    and out: "out = scored L ?d df
      (map (diff_cultural L (normalize_cultural L (cval ?d ''cultural''))) cs)"
    by (rule compute_Inr)
  let ?ds = "map (diff_cultural L (normalize_cultural L (cval ?d ''cultural''))) cs"
  have len: "length ?ds = nrows df"
    using assms cs by (simp add: wf_column_length)
  have cult: "list_all (undefined_or (\<lambda>r. r = 0 \<or> r = 1)) (float_series ?ds)"
    by (rule diff_cultural_zero_one)
  then have cult': "list_all (undefined_or (\<lambda>r. 0 \<le> r)) (float_series ?ds)"
    by (auto simp: list_all_iff elim!: undefined_or_mono)
  have tier: "list_all (undefined_or (\<lambda>r. 0 \<le> r)) (float_series (diff_tiered_income L ?d df))"
    by (simp add: diff_tiered_income_rowwise [OF assms] numeric_diffs_nonneg)
  have all: "list_all (undefined_or (\<lambda>r. 0 \<le> r)) (float_series F)"
    if "F \<in> set (distances L ?d df ?ds)" for F
    using that tier cult' by (auto simp: distances_def numeric_diffs_nonneg)
  have "undefined_or (\<lambda>r. r \<le> 1) (float_series (scores L ?d df ?ds) ! i)"
    if "i < nrows df" for i
  proof -
    have "undefined_or (\<lambda>r. 0 \<le> r) (PFloat f)"
      if "f \<in> set (map (\<lambda>F. F ! i) (distances L ?d df ?ds))" for f
    proof -
      from that obtain F where F: "F \<in> set (distances L ?d df ?ds)" and f: "f = F ! i"
        by auto
      have "length F = nrows df"
        using assms len F by (rule length_distances)
      then show ?thesis
        using all [OF F] \<open>i < nrows df\<close> f
        by (auto simp: float_series_def list_all_iff)
    qed
    then have "\<forall>f \<in> set (map (\<lambda>F. F ! i) (distances L ?d df ?ds)).
                 undefined_or (\<lambda>r. 0 \<le> r) (PFloat f)"
      by blast
    then show ?thesis
      using that score_at_most_one
      by (simp add: float_series_nth length_scores scores_nth)
  qed
  then have score: "list_all (undefined_or (\<lambda>r. r \<le> 1)) (float_series (scores L ?d df ?ds))"
    by (simp add: list_all_length length_float_series length_scores)
  have "list_all (\<lambda>c. \<exists>ys. column out c = Some ys
                   \<and> list_all (undefined_or (\<lambda>r. 0 \<le> r)) ys) diff_cols"
    using tier cult'
    by (simp add: diff_cols_def attrs_def out column_scored numeric_diffs_nonneg)
  then show "list_all (\<lambda>c. \<exists>ys. column out c = Some ys
                   \<and> list_all (undefined_or (\<lambda>r. 0 \<le> r)) ys) diff_cols
           \<and> (\<exists>ys. column out ''diff_cultural'' = Some ys
                   \<and> list_all (undefined_or (\<lambda>r. r = 0 \<or> r = 1)) ys)
           \<and> (\<exists>bs. column out ''base_score'' = Some bs
                   \<and> list_all (undefined_or (\<lambda>r. r \<le> 1)) bs)"
    using cult score by (simp add: out column_scored)
qed

theorem distances_nonnegative_witness:
  "wf agents1 \<and> column agents1 ''cultural'' = Some [PStr '' Western'', PEnum ''eastern'']
   \<and> scalar_inputs agents1 (as_dict (CMapping content1))
   \<and> (\<exists>out ys bs. compute_base_match_df lib0 agents1 (CMapping content1) = Inr out
         \<and> column out ''diff_age'' = Some ys \<and> list_all (undefined_or (\<lambda>r. 0 \<le> r)) ys
         \<and> column out ''base_score'' = Some bs \<and> list_all (undefined_or (\<lambda>r. r \<le> 1)) bs
         \<and> bs = [PFloat (Fin (- (13 / 15))), PFloat (Fin (- (5 / 2)))])"
proof -
  note full = distances_nonnegative [OF wf_agents1, of lib0 "CMapping content1"]
  from full agents1_columns(1) agents1_scalar(1)
  obtain out where o: "compute_base_match_df lib0 agents1 (CMapping content1) = Inr out"
    by blast
  with full have "list_all (\<lambda>c. \<exists>ys. column out c = Some ys
                   \<and> list_all (undefined_or (\<lambda>r. 0 \<le> r)) ys) diff_cols"
    and "\<exists>bs. column out ''base_score'' = Some bs \<and> list_all (undefined_or (\<lambda>r. r \<le> 1)) bs"
    by blast+
  then obtain ys bs where
    y: "column out ''diff_age'' = Some ys" "list_all (undefined_or (\<lambda>r. 0 \<le> r)) ys"
    and b: "column out ''base_score'' = Some bs" "list_all (undefined_or (\<lambda>r. r \<le> 1)) bs"
    by (auto simp: diff_cols_def attrs_def)
  have "column out ''base_score''
          = Some [PFloat (Fin (- (13 / 15))), PFloat (Fin (- (5 / 2)))]"
    using o unfolding sample_full by (auto simp: column_def)
  with b have "bs = [PFloat (Fin (- (13 / 15))), PFloat (Fin (- (5 / 2)))]"
    by simp
  then show ?thesis
    using wf_agents1 agents1_columns(1) agents1_scalar(1) o y b by blast
qed

subsection \<open>Missing columns\<close>

text \<open>
  C5. On the sample table without its \<open>cultural\<close> column the scorer raises \<open>KeyError\<close>,
  while on the same table without its \<open>ethics\<close> column it returns a table whose
  \<open>diff_ethics\<close> is undefined in every row.
\<close>

theorem missing_cultural_column_raises:
  "compute_base_match_df lib0 (drop_column agents1 ''cultural'') (CMapping content1)
     = Inl (KeyError ''cultural'')
   \<and> (case compute_base_match_df lib0 (drop_column agents1 ''ethics'') (CMapping content1) of
        Inl e \<Rightarrow> None | Inr out \<Rightarrow> column out ''diff_ethics'')
     = Some [PFloat NaN, PFloat NaN]"
  by code_simp

subsection \<open>Frame\<close>

text \<open>
  A column of the input that is named like a column of the result is replaced: the
  \<open>base_score\<close> of \<open>agents2\<close> holds 7 before the call and NaN after it.
\<close>

theorem passthrough_column_overwritten:
  "compute_base_match_df lib0 agents2 CNone = Inr scored_agents2
   \<and> column agents2 ''base_score'' = Some [PInt 7]
   \<and> column scored_agents2 ''base_score'' = Some [PFloat NaN]"
  by code_simp

lemma heap_nth_last: "(h @ [d]) ! length h = d"
  by simp

lemma heap_setitem_last: "heap_setitem (h @ [d]) (length h) c xs = h @ [setitem d c xs]"
  by (simp add: heap_setitem_def)

text \<open>
  The loop on the copy: the heap is the caller's heap followed by the copy as far as it
  was assigned, and the loop raises or completes as it does on the value of the copy.
\<close>

lemma heap_assign_diffs_last:
  "\<exists>t'. heap_assign_diffs L d (h @ [t]) (length h) as
           = (h @ [t'], case assign_diffs L d t as of Inl e \<Rightarrow> Inl e | Inr df \<Rightarrow> Inr ())
         \<and> (\<forall>df. assign_diffs L d t as = Inr df \<longrightarrow> t' = df)"
proof (induction as arbitrary: t)
  case Nil
  show ?case by simp
next
  case (Cons a as)
  show ?case
  proof (cases "diff_column L d t a")
    case (Inl e)
    then show ?thesis by (simp add: heap_nth_last)
  next
    case (Inr xs)
    from Cons [of "setitem t (''diff_'' @ a) (float_series xs)"] Inr show ?thesis
      by (simp add: heap_nth_last heap_setitem_last)
  qed
qed

lemma compute_heap_pure:
  "\<exists>t'. compute_base_match_df_heap L h a content
           = (h @ [t'], case compute_base_match_df L (h ! a) content of
                          Inl e \<Rightarrow> Inl e | Inr out \<Rightarrow> Inr (length h))
         \<and> (\<forall>out. compute_base_match_df L (h ! a) content = Inr out \<longrightarrow> t' = out)"
proof -
  let ?d = "as_dict content"
  let ?t0 = "setitem (h ! a) ''diff_tiered_income''
               (float_series (diff_tiered_income L ?d (h ! a)))"
  let ?as = "[''ethics'', ''politics'', ''age'', ''sex'']"
  obtain t1 where loop: "heap_assign_diffs L ?d (h @ [?t0]) (length h) ?as
           = (h @ [t1], case assign_diffs L ?d ?t0 ?as of Inl e \<Rightarrow> Inl e | Inr df \<Rightarrow> Inr ())"
    and t1: "\<forall>df. assign_diffs L ?d ?t0 ?as = Inr df \<longrightarrow> t1 = df"
    using heap_assign_diffs_last [of L ?d h ?t0 ?as] by blast
  have start: "heap_setitem (h @ [h ! a]) (length h) ''diff_tiered_income''
                 (float_series (diff_tiered_income L ?d (h ! a)))
               = h @ [?t0]"
    by (simp add: heap_setitem_last)
  show ?thesis
  proof (cases "assign_diffs L ?d ?t0 ?as")
    case (Inl e)
    then show ?thesis
      unfolding compute_base_match_df_heap_def compute_base_match_df_def df_copy_def
      by (simp add: Let_def start loop del: assign_diffs.simps heap_assign_diffs.simps)
  next
    case (Inr df)
    with t1 have eq: "t1 = df" by simp
    show ?thesis
    proof (cases "diff_cultural_column L ?d df")
      case (Inl e)
      with Inr eq show ?thesis
        unfolding compute_base_match_df_heap_def compute_base_match_df_def df_copy_def
        by (simp add: Let_def start loop del: assign_diffs.simps heap_assign_diffs.simps)
    next
      case ds: (Inr ds)
      show ?thesis
      proof (cases "base_score (setitem df ''diff_cultural'' (float_series ds))")
        case (Inl e)
        with Inr eq ds show ?thesis
          unfolding compute_base_match_df_heap_def compute_base_match_df_def df_copy_def
          by (simp add: Let_def start loop heap_setitem_last
              del: assign_diffs.simps heap_assign_diffs.simps)
      next
        case bs: (Inr bs)
        with Inr eq ds show ?thesis
          unfolding compute_base_match_df_heap_def compute_base_match_df_def df_copy_def
          by (simp add: Let_def start loop heap_setitem_last
              del: assign_diffs.simps heap_assign_diffs.simps)
      qed
    qed
  qed
qed

lemma wf_with_numeric_diffs: "wf df \<Longrightarrow> wf (with_numeric_diffs L d df)"
  by (simp add: with_numeric_diffs_def wf_setitem nrows_setitem length_float_series
      length_diff_tiered_income length_numeric_diffs)

lemma wf_scored: "wf df \<Longrightarrow> length ds = nrows df \<Longrightarrow> wf (scored L d df ds)"
  by (simp add: scored_def wf_setitem wf_with_numeric_diffs nrows_setitem
      nrows_with_numeric_diffs length_float_series length_scores)

lemma set_columns_setitem: "set (columns (setitem df c xs)) = insert c (set (columns df))"
  by (auto simp: columns_setitem)

lemma set_columns_scored:
  "set (columns (scored L d df ds)) = set (columns df) \<union> set (diff_cols @ [''base_score''])"
  by (auto simp: scored_def with_numeric_diffs_def set_columns_setitem diff_cols_def attrs_def)

text \<open>
  A sequence of assignments to distinct names keeps the columns of the table in place and
  appends, in the order of the assignments, the names that the table lacks.
\<close>

lemma columns_assignments:
  "distinct (map fst ps) \<Longrightarrow>
   columns (foldl (\<lambda>t p. setitem t (fst p) (snd p)) df ps)
     = columns df @ filter (\<lambda>c. c \<notin> set (columns df)) (map fst ps)"
proof (induction ps rule: rev_induct)
  case Nil
  show ?case by simp
next
  case (snoc p ps)
  then show ?case by (auto simp: columns_setitem)
qed

lemma columns_scored:
  "columns (scored L d df ds) =
     columns df @ filter (\<lambda>c. c \<notin> set (columns df))
       [''diff_tiered_income'', ''diff_ethics'', ''diff_politics'', ''diff_age'',
        ''diff_sex'', ''diff_cultural'', ''base_score'']"
proof -
  let ?ps = "[(''diff_tiered_income'', float_series (diff_tiered_income L d df)),
              (''diff_ethics'', float_series (numeric_diffs L d df ''ethics'')),
              (''diff_politics'', float_series (numeric_diffs L d df ''politics'')),
              (''diff_age'', float_series (numeric_diffs L d df ''age'')),
              (''diff_sex'', float_series (numeric_diffs L d df ''sex'')),
              (''diff_cultural'', float_series ds),
              (''base_score'', float_series (scores L d df ds))]"
  have "scored L d df ds = foldl (\<lambda>t p. setitem t (fst p) (snd p)) df ?ps"
    by (simp add: scored_def with_numeric_diffs_def)
  moreover have "distinct (map fst ?ps)"
    by simp
  ultimately show ?thesis
    using columns_assignments [of ?ps df] by simp
qed

lemma float_series_ex:
  "length xs = n \<Longrightarrow> \<exists>fs. float_series xs = float_series fs \<and> length fs = n"
  by blast

lemma computed_columns_scored:
  assumes "wf df" and "length ds = nrows df"
  shows "list_all (\<lambda>c. \<exists>fs. column (scored L d df ds) c = Some (float_series fs)
                            \<and> length fs = nrows df) (diff_cols @ [''base_score''])"
  using assms
  by (simp add: diff_cols_def attrs_def column_scored float_series_ex
      length_diff_tiered_income length_numeric_diffs length_scores)

text \<open>
  C9. Every call, whether it returns or raises, allocates one new table and leaves every
  table of the caller's heap, the agent table among them, as it was; it returns a
  reference to the new table exactly when the scorer on the value of the agent table
  returns that table, and raises the same error otherwise. Whenever the call returns,
  the new table is well formed with the row count of the input; every column of the input
  that is not named like one of the seven result columns is in it unchanged; each of the
  seven result names holds a computed column of floats, also when the input had a column
  of that name; and the column names are those of the input, in their order, followed by
  those of \<open>diff_tiered_income\<close>, \<open>diff_ethics\<close>, \<open>diff_politics\<close>, \<open>diff_age\<close>,
  \<open>diff_sex\<close>, \<open>diff_cultural\<close>, \<open>base_score\<close> that the input lacks, in this order.
  The call returns on a well-formed table with a \<open>cultural\<close> column whose numeric cells
  and content values are scalars.
\<close>

theorem scorer_frame:
  assumes "agents_df < length h" and "wf (h ! agents_df)"
  shows "(\<exists>h' r. compute_base_match_df_heap L h agents_df content = (h', r)
            \<and> length h' = Suc (length h) \<and> (\<forall>q < length h. h' ! q = h ! q)
            \<and> (case r of
                  Inl e \<Rightarrow> compute_base_match_df L (h ! agents_df) content = Inl e
                | Inr p \<Rightarrow> p = length h
                    \<and> compute_base_match_df L (h ! agents_df) content = Inr (h' ! p)))
       \<and> (\<forall>out. compute_base_match_df L (h ! agents_df) content = Inr out \<longrightarrow>
             wf out \<and> nrows out = nrows (h ! agents_df)
             \<and> (\<forall>c. c \<notin> set (diff_cols @ [''base_score'']) \<longrightarrow>
                   column out c = column (h ! agents_df) c)
             \<and> list_all (\<lambda>c. \<exists>fs. column out c = Some (float_series fs)
                                \<and> length fs = nrows (h ! agents_df))
                 (diff_cols @ [''base_score''])
             \<and> columns out
                 = columns (h ! agents_df)
                   @ filter (\<lambda>c. c \<notin> set (columns (h ! agents_df)))
                       [''diff_tiered_income'', ''diff_ethics'', ''diff_politics'',
                        ''diff_age'', ''diff_sex'', ''diff_cultural'', ''base_score'']
             \<and> set (columns out)
                 = set (columns (h ! agents_df)) \<union> set (diff_cols @ [''base_score'']))
       \<and> (\<forall>cs. column (h ! agents_df) ''cultural'' = Some cs
               \<and> scalar_inputs (h ! agents_df) (as_dict content) \<longrightarrow>
             (\<exists>out. compute_base_match_df L (h ! agents_df) content = Inr out))"
proof (intro conjI)
  let ?df = "h ! agents_df"
  obtain t' where heap: "compute_base_match_df_heap L h agents_df content
           = (h @ [t'], case compute_base_match_df L ?df content of
                          Inl e \<Rightarrow> Inl e | Inr out \<Rightarrow> Inr (length h))"
    and t': "\<forall>out. compute_base_match_df L ?df content = Inr out \<longrightarrow> t' = out"
    using compute_heap_pure [of L h agents_df content] by blast
  have keep: "\<forall>q < length h. (h @ [t']) ! q = h ! q"
    by (simp add: nth_append)
  have "case (case compute_base_match_df L ?df content of
                Inl e \<Rightarrow> Inl e | Inr out \<Rightarrow> Inr (length h)) of
          Inl e \<Rightarrow> compute_base_match_df L ?df content = Inl e
        | Inr p \<Rightarrow> p = length h
            \<and> compute_base_match_df L ?df content = Inr ((h @ [t']) ! p)"
    using t' by (cases "compute_base_match_df L ?df content") simp_all
  with heap keep show "\<exists>h' r. compute_base_match_df_heap L h agents_df content = (h', r)
            \<and> length h' = Suc (length h) \<and> (\<forall>q < length h. h' ! q = h ! q)
            \<and> (case r of
                  Inl e \<Rightarrow> compute_base_match_df L ?df content = Inl e
                | Inr p \<Rightarrow> p = length h
                    \<and> compute_base_match_df L ?df content = Inr (h' ! p))"
    by (intro exI [of _ "h @ [t']"] exI) simp
next
  let ?df = "h ! agents_df"
  let ?d = "as_dict content"
  show "\<forall>out. compute_base_match_df L ?df content = Inr out \<longrightarrow>
             wf out \<and> nrows out = nrows ?df
             \<and> (\<forall>c. c \<notin> set (diff_cols @ [''base_score'']) \<longrightarrow> column out c = column ?df c)
             \<and> list_all (\<lambda>c. \<exists>fs. column out c = Some (float_series fs)
                                \<and> length fs = nrows ?df)
                 (diff_cols @ [''base_score''])
             \<and> columns out
                 = columns ?df
                   @ filter (\<lambda>c. c \<notin> set (columns ?df))
                       [''diff_tiered_income'', ''diff_ethics'', ''diff_politics'',
                        ''diff_age'', ''diff_sex'', ''diff_cultural'', ''base_score'']
             \<and> set (columns out) = set (columns ?df) \<union> set (diff_cols @ [''base_score''])"
  proof (intro allI impI)
    fix out assume o: "compute_base_match_df L ?df content = Inr out"
    from assms(2) o obtain cs where cs: "column ?df ''cultural'' = Some cs"
      and out: "out = scored L ?d ?df
        (map (diff_cultural L (normalize_cultural L (cval ?d ''cultural''))) cs)"
      by (rule compute_Inr)
    let ?ds = "map (diff_cultural L (normalize_cultural L (cval ?d ''cultural''))) cs"
    have len: "length ?ds = nrows ?df"
      using assms(2) cs by (simp add: wf_column_length)
    have passthrough:
      "\<forall>c. c \<notin> set (diff_cols @ [''base_score'']) \<longrightarrow> column out c = column ?df c"
      by (simp add: out column_scored diff_cols_def attrs_def)
    show "wf out \<and> nrows out = nrows ?df
             \<and> (\<forall>c. c \<notin> set (diff_cols @ [''base_score'']) \<longrightarrow> column out c = column ?df c)
             \<and> list_all (\<lambda>c. \<exists>fs. column out c = Some (float_series fs)
                                \<and> length fs = nrows ?df)
                 (diff_cols @ [''base_score''])
             \<and> columns out
                 = columns ?df
                   @ filter (\<lambda>c. c \<notin> set (columns ?df))
                       [''diff_tiered_income'', ''diff_ethics'', ''diff_politics'',
                        ''diff_age'', ''diff_sex'', ''diff_cultural'', ''base_score'']
             \<and> set (columns out) = set (columns ?df) \<union> set (diff_cols @ [''base_score''])"
      unfolding out
      using passthrough [unfolded out] wf_scored [OF assms(2) len]
        computed_columns_scored [OF assms(2) len]
      by (intro conjI nrows_scored columns_scored set_columns_scored)
  qed
next
  show "\<forall>cs. column (h ! agents_df) ''cultural'' = Some cs
               \<and> scalar_inputs (h ! agents_df) (as_dict content) \<longrightarrow>
             (\<exists>out. compute_base_match_df L (h ! agents_df) content = Inr out)"
    using compute_returns [OF assms(2)] by blast
qed

lemma wf_agents2: "wf agents2"
  by (simp add: wf_def agents2_def)

theorem scorer_frame_witness:
  "0 < length [agents1] \<and> wf ([agents1] ! 0)
   \<and> column ([agents1] ! 0) ''cultural'' = Some [PStr '' Western'', PEnum ''eastern'']
   \<and> scalar_inputs ([agents1] ! 0) (as_dict (CMapping content1))
   \<and> ''name'' \<notin> set (diff_cols @ [''base_score''])
   \<and> (\<exists>h' out. compute_base_match_df_heap lib0 [agents1] 0 (CMapping content1) = (h', Inr 1)
         \<and> length h' = 2 \<and> h' ! 0 = agents1 \<and> h' ! 1 = out \<and> nrows out = 2
         \<and> column out ''name'' = Some [PStr ''ann'', PStr ''bob'']
         \<and> columns out = [''name'', ''tiered_income'', ''ethics'', ''politics'', ''cultural'',
              ''age'', ''sex'', ''diff_tiered_income'', ''diff_ethics'', ''diff_politics'',
              ''diff_age'', ''diff_sex'', ''diff_cultural'', ''base_score''])
   \<and> 0 < length [agents2] \<and> wf ([agents2] ! 0)
   \<and> (\<exists>out fs. compute_base_match_df lib0 ([agents2] ! 0) CNone = Inr out
         \<and> column out ''base_score'' = Some (float_series fs)
         \<and> columns out = [''cultural'', ''base_score'', ''diff_tiered_income'', ''diff_ethics'',
              ''diff_politics'', ''diff_age'', ''diff_sex'', ''diff_cultural''])"
proof -
  have l: "0 < length [agents1]" by simp
  have w: "wf ([agents1] ! 0)" by (simp add: wf_agents1)
  have c: "column ([agents1] ! 0) ''cultural'' = Some [PStr '' Western'', PEnum ''eastern'']"
    by (simp add: agents1_columns)
  have sc: "scalar_inputs ([agents1] ! 0) (as_dict (CMapping content1))"
    using agents1_scalar(1) by simp
  have n: "''name'' \<notin> set (diff_cols @ [''base_score''])"
    by (simp add: diff_cols_def attrs_def)
  have cs: "columns agents1 = [''name'', ''tiered_income'', ''ethics'', ''politics'',
              ''cultural'', ''age'', ''sex'']"
    by (simp add: columns_def agents1_def)
  have nm: "column agents1 ''name'' = Some [PStr ''ann'', PStr ''bob'']"
    by (simp add: column_def agents1_def)
  note f = scorer_frame [OF l w, of lib0 "CMapping content1"]
  from f c sc obtain out where
    o: "compute_base_match_df lib0 ([agents1] ! 0) (CMapping content1) = Inr out"
    by blast
  from f obtain h' r where
    hp: "compute_base_match_df_heap lib0 [agents1] 0 (CMapping content1) = (h', r)"
    and len: "length h' = Suc (length [agents1])"
    and keep: "\<forall>q < length [agents1]. h' ! q = [agents1] ! q"
    and res: "case r of
                Inl e \<Rightarrow> compute_base_match_df lib0 ([agents1] ! 0) (CMapping content1) = Inl e
              | Inr p \<Rightarrow> p = length [agents1]
                  \<and> compute_base_match_df lib0 ([agents1] ! 0) (CMapping content1)
                      = Inr (h' ! p)"
    by blast
  from res o have r: "r = Inr 1" and new: "h' ! 1 = out"
    by (cases r; simp)+
  from f o have rows: "nrows out = nrows ([agents1] ! 0)"
    and pass: "\<forall>c. c \<notin> set (diff_cols @ [''base_score'']) \<longrightarrow>
                 column out c = column ([agents1] ! 0) c"
    and names: "columns out = columns ([agents1] ! 0)
                   @ filter (\<lambda>c. c \<notin> set (columns ([agents1] ! 0)))
                       [''diff_tiered_income'', ''diff_ethics'', ''diff_politics'',
                        ''diff_age'', ''diff_sex'', ''diff_cultural'', ''base_score'']"
    by blast+
  have first: "compute_base_match_df_heap lib0 [agents1] 0 (CMapping content1) = (h', Inr 1)
         \<and> length h' = 2 \<and> h' ! 0 = agents1 \<and> h' ! 1 = out \<and> nrows out = 2
         \<and> column out ''name'' = Some [PStr ''ann'', PStr ''bob'']
         \<and> columns out = [''name'', ''tiered_income'', ''ethics'', ''politics'', ''cultural'',
              ''age'', ''sex'', ''diff_tiered_income'', ''diff_ethics'', ''diff_politics'',
              ''diff_age'', ''diff_sex'', ''diff_cultural'', ''base_score'']"
    using hp r len keep new rows pass n names
    by (simp add: cs nm agents1_columns(4))
  have l2: "0 < length [agents2]" by simp
  have w2: "wf ([agents2] ! 0)" by (simp add: wf_agents2)
  have c2: "column ([agents2] ! 0) ''cultural'' = Some [PStr ''western'']"
    by (simp add: column_def agents2_def)
  have sc2: "scalar_inputs ([agents2] ! 0) (as_dict CNone)"
    by code_simp
  have cs2: "columns agents2 = [''cultural'', ''base_score'']"
    by (simp add: columns_def agents2_def)
  note g = scorer_frame [OF l2 w2, of lib0 CNone]
  from g c2 sc2 obtain out2 where o2: "compute_base_match_df lib0 ([agents2] ! 0) CNone = Inr out2"
    by blast
  from g o2 have comp: "list_all (\<lambda>c. \<exists>fs. column out2 c = Some (float_series fs)
                                \<and> length fs = nrows ([agents2] ! 0))
                 (diff_cols @ [''base_score''])"
    and names2: "columns out2 = columns ([agents2] ! 0)
                   @ filter (\<lambda>c. c \<notin> set (columns ([agents2] ! 0)))
                       [''diff_tiered_income'', ''diff_ethics'', ''diff_politics'',
                        ''diff_age'', ''diff_sex'', ''diff_cultural'', ''base_score'']"
    by blast+
  from comp obtain fs where b2: "column out2 ''base_score'' = Some (float_series fs)"
    by auto
  have second: "compute_base_match_df lib0 ([agents2] ! 0) CNone = Inr out2
         \<and> column out2 ''base_score'' = Some (float_series fs)
         \<and> columns out2 = [''cultural'', ''base_score'', ''diff_tiered_income'', ''diff_ethics'',
              ''diff_politics'', ''diff_age'', ''diff_sex'', ''diff_cultural'']"
    using o2 b2 names2 by (simp add: cs2)
  show ?thesis
    using l w c sc n first l2 w2 second by blast
qed

end
